theory Spec2Isabelle
  imports Main "HOL-Library.Word"
begin

section \<open>JavaScript values\<close>

text \<open>
  The server (\<^verbatim>\<open>src/index.ts\<close>) handles untyped data: the arguments of a tool call and
  the bodies that the crawling service answers with are whatever \<^verbatim>\<open>JSON.parse\<close> produced.
  \<open>jsval\<close> is that universe, with \<open>JUndefined\<close> for an absent value. An object is the
  list of its own properties, one entry per key.

  A number is a double, and this program does two things with one: it tests it for
  truthiness and it prints it. Printing (\<^verbatim>\<open>Number.prototype.toString\<close>) belongs to the
  language, not to this program, so \<open>JNum\<close> holds a number as the text the language prints
  for it: \<^verbatim>\<open>10\<close>, \<^verbatim>\<open>0.5\<close>, \<^verbatim>\<open>1e+21\<close>, \<^verbatim>\<open>NaN\<close>. Different numbers print differently,
  but for the two zeros, which both print as \<^verbatim>\<open>0\<close> and on which the program acts alike.
\<close>

datatype jsval =
    JUndefined
  | JNull
  | JBool bool
  | JNum string
  | JStr string
  | JArr "jsval list"
  | JObj "(string \<times> jsval) list"

datatype error_code = MethodNotFound | InvalidParams | InternalError

text \<open>
  What an \<^verbatim>\<open>AxiosError\<close> carries, as far as the handler reads it: \<^verbatim>\<open>error.response\<close>
  (absent when no answer arrived), \<^verbatim>\<open>error.message\<close> and \<^verbatim>\<open>error.config\<close>. The status
  of a response is the code of the HTTP status line, three decimal digits, which a word of
  ten bits holds.
\<close>

record axios_response =
  status :: "10 word"
  data :: jsval

record request_config =
  req_method :: "string option"
  req_url :: "string option"

record axios_error =
  err_response :: "axios_response option"
  err_message :: string
  err_config :: "request_config option"

text \<open>
  Everything the handler can throw or catch. \<open>OtherError\<close> is an \<^verbatim>\<open>Error\<close> that is
  not an axios error; \<open>ThrownUndefined\<close> is \<^verbatim>\<open>throw lastError\<close> with nothing stored.
\<close>

datatype error =
    McpError error_code string
  | TypeError string
  | AxiosError axios_error
  | OtherError string
  | ThrownUndefined

subsection \<open>Primitive operations of the language\<close>

text \<open>
  ToBoolean: what \<^verbatim>\<open>!x\<close>, \<^verbatim>\<open>x && y\<close>, \<^verbatim>\<open>x || y\<close> and \<^verbatim>\<open>if (x)\<close> test. The falsy
  numbers are the two zeros and \<^verbatim>\<open>NaN\<close>.
\<close>

fun truthy :: "jsval \<Rightarrow> bool" where
  "truthy JUndefined = False"
| "truthy JNull = False"
| "truthy (JBool b) = b"
| "truthy (JNum t) = (t \<noteq> ''0'' \<and> t \<noteq> ''NaN'')"
| "truthy (JStr s) = (s \<noteq> [])"
| "truthy (JArr xs) = True"
| "truthy (JObj kvs) = True"

fun typeof :: "jsval \<Rightarrow> string" where
  "typeof JUndefined = ''undefined''"
| "typeof JNull = ''object''"
| "typeof (JBool b) = ''boolean''"
| "typeof (JNum t) = ''number''"
| "typeof (JStr s) = ''string''"
| "typeof (JArr xs) = ''object''"
| "typeof (JObj kvs) = ''object''"

fun isArray :: "jsval \<Rightarrow> bool" where
  "isArray (JArr xs) = True"
| "isArray v = False"

fun elements :: "jsval \<Rightarrow> jsval list" where
  "elements (JArr xs) = xs"
| "elements v = []"

text \<open>
  \<open>js_member v k\<close> is the member read \<^verbatim>\<open>v.k\<close> on a value that is not \<^verbatim>\<open>null\<close> or
  \<^verbatim>\<open>undefined\<close>, for the keys this program reads (\<^verbatim>\<open>urls\<close>, \<^verbatim>\<open>results\<close>,
  \<^verbatim>\<open>markdown_v2\<close>, \<^verbatim>\<open>markdown_with_citations\<close>, \<^verbatim>\<open>markdown\<close>, \<^verbatim>\<open>message\<close>,
  \<^verbatim>\<open>detail\<close>): none of them is defined on a built-in prototype, so the read gives the
  object's own property or \<^verbatim>\<open>undefined\<close>. \<open>js_get\<close> is the unguarded read, which throws
  on \<^verbatim>\<open>null\<close> and \<^verbatim>\<open>undefined\<close>; \<open>opt_get\<close> is the optional chain \<^verbatim>\<open>v?.k\<close>.
\<close>

fun js_member :: "jsval \<Rightarrow> string \<Rightarrow> jsval" where
  "js_member (JObj kvs) k = (case map_of kvs k of Some v \<Rightarrow> v | None \<Rightarrow> JUndefined)"
| "js_member v k = JUndefined"

fun nullish :: "jsval \<Rightarrow> bool" where
  "nullish JUndefined = True"
| "nullish JNull = True"
| "nullish v = False"

definition js_get :: "jsval \<Rightarrow> string \<Rightarrow> error + jsval" where
  "js_get v k =
     (if nullish v then Inl (TypeError ''Cannot read properties of null or undefined'')
      else Inr (js_member v k))"

definition opt_get :: "jsval \<Rightarrow> string \<Rightarrow> jsval" where
  "opt_get v k = (if nullish v then JUndefined else js_member v k)"

subsection \<open>Printing\<close>

text \<open>
  ToString, which template literals and \<^verbatim>\<open>Array.prototype.join\<close> apply. A number prints
  as the text it is held as. An array prints as its elements joined by a comma, \<^verbatim>\<open>null\<close> and
  \<^verbatim>\<open>undefined\<close> elements as nothing. A plain object prints as \<^verbatim>\<open>[object Object]\<close>
  through \<^verbatim>\<open>Object.prototype.toString\<close>; an object parsed from JSON that has a key
  \<^verbatim>\<open>toString\<close> of its own hides that method behind a value that cannot be called, and
  converting it throws a \<^verbatim>\<open>TypeError\<close>.
\<close>

definition digit :: "nat \<Rightarrow> char" where
  "digit d = char_of (48 + d)"

function show_nat :: "nat \<Rightarrow> string" where
  "show_nat n = (if n < 10 then [digit n] else show_nat (n div 10) @ [digit (n mod 10)])"
  by pat_completeness auto
termination
  by (relation "measure (\<lambda>n. n)") auto

declare show_nat.simps [simp del]

fun join_strings :: "string \<Rightarrow> string list \<Rightarrow> string" where
  "join_strings sep [] = []"
| "join_strings sep [x] = x"
| "join_strings sep (x # y # ys) = x @ sep @ join_strings sep (y # ys)"

text \<open>Running a list of computations in order; the first one that throws ends the run.\<close>

fun sequence :: "(error + 'a) list \<Rightarrow> error + 'a list" where
  "sequence [] = Inr []"
| "sequence (Inl e # rs) = Inl e"
| "sequence (Inr x # rs) = (case sequence rs of Inl e \<Rightarrow> Inl e | Inr xs \<Rightarrow> Inr (x # xs))"

fun js_to_string :: "jsval \<Rightarrow> error + string" where
  "js_to_string JUndefined = Inr ''undefined''"
| "js_to_string JNull = Inr ''null''"
| "js_to_string (JBool b) = Inr (if b then ''true'' else ''false'')"
| "js_to_string (JNum t) = Inr t"
| "js_to_string (JStr s) = Inr s"
| "js_to_string (JArr xs) =
     (case sequence (map (\<lambda>x. if nullish x then Inr [] else js_to_string x) xs) of
        Inl e \<Rightarrow> Inl e
      | Inr ss \<Rightarrow> Inr (join_strings '','' ss))"
| "js_to_string (JObj kvs) =
     (if ''toString'' \<in> set (map fst kvs)
      then Inl (TypeError ''Cannot convert object to primitive value'')
      else Inr ''[object Object]'')"

text \<open>\<^verbatim>\<open>xs.join(sep)\<close> on an array of arbitrary values.\<close>

definition js_join :: "string \<Rightarrow> jsval list \<Rightarrow> error + string" where
  "js_join sep xs =
     (case sequence (map (\<lambda>x. if nullish x then Inr [] else js_to_string x) xs) of
        Inl e \<Rightarrow> Inl e
      | Inr ss \<Rightarrow> Inr (join_strings sep ss))"

text \<open>\<^verbatim>\<open>String.prototype.toUpperCase\<close> on the ASCII letters.\<close>

definition upper_char :: "char \<Rightarrow> char" where
  "upper_char c =
     (let n = (of_char c :: nat) in if 97 \<le> n \<and> n \<le> 122 then char_of (n - 32) else c)"

definition toUpperCase :: "string \<Rightarrow> string" where
  "toUpperCase s = map upper_char s"

section \<open>The server\<close>

subsection \<open>Configuration\<close>

text \<open>The two environment variables, read once when the module loads.\<close>

record env =
  CRAWL4AI_API_URL :: "string option"
  CRAWL4AI_AUTH_TOKEN :: "string option"

definition API_URL :: "env \<Rightarrow> string" where
  "API_URL ev =
     (case CRAWL4AI_API_URL ev of
        Some u \<Rightarrow> if u \<noteq> [] then u else ''http://127.0.0.1:11235''
      | None \<Rightarrow> ''http://127.0.0.1:11235'')"

definition AUTH_TOKEN :: "env \<Rightarrow> string option" where
  "AUTH_TOKEN ev = CRAWL4AI_AUTH_TOKEN ev"

definition DEFAULT_CONFIG :: "(string \<times> jsval) list" where
  "DEFAULT_CONFIG =
     [(''priority'', JNum ''10''),
      (''magic'', JBool True),
      (''crawler_params'', JObj
         [(''headless'', JBool True),
          (''page_timeout'', JNum ''30000''),
          (''remove_overlay_elements'', JBool True),
          (''browser_type'', JStr ''chromium''),
          (''scan_full_page'', JBool True),
          (''user_agent_mode'', JStr ''random''),
          (''user_agent_generator_config'', JObj
             [(''device_type'', JStr ''mobile''),
              (''os_type'', JStr ''android'')])]),
      (''bypass_cache'', JBool True),
      (''ignore_images'', JBool True)]"

definition retryCount :: nat where
  "retryCount = 3"

subsection \<open>Validation and normalisation\<close>

definition isValidCrawlRequest :: "jsval \<Rightarrow> bool" where
  "isValidCrawlRequest args =
     (if \<not> truthy args \<or> typeof args \<noteq> ''object'' then False
      else if \<not> isArray (js_member args ''urls'')
              \<or> \<not> list_all (\<lambda>u. typeof u = ''string'') (elements (js_member args ''urls''))
           then False
      else True)"

definition sentinel :: string where
  "sentinel = ''Error: No markdown content available for this URL''"

text \<open>
  \<^verbatim>\<open>extractMarkdown\<close>. The first read, \<^verbatim>\<open>result.markdown_v2\<close>, is unguarded. The value
  returned is whatever the property holds: the annotation \<^verbatim>\<open>: string\<close> is not checked
  when the program runs. The line written to \<^verbatim>\<open>console.error\<close> is left out.
\<close>

definition extractMarkdown :: "jsval \<Rightarrow> error + jsval" where
  "extractMarkdown result =
     (case js_get result ''markdown_v2'' of
        Inl e \<Rightarrow> Inl e
      | Inr mv2 \<Rightarrow>
          if truthy mv2 \<and> truthy (js_member mv2 ''markdown_with_citations'')
          then Inr (js_member mv2 ''markdown_with_citations'')
          else if truthy (js_member result ''markdown'') then Inr (js_member result ''markdown'')
          else if typeof result = ''string'' then Inr result
          else Inr (JStr sentinel))"

subsection \<open>The outbound request\<close>

text \<open>
  An axios configuration, as given to \<^verbatim>\<open>axios.create\<close> or as the last argument of a
  request. A request is made on a client: the module-level \<^verbatim>\<open>axios\<close>, or an instance
  made by \<^verbatim>\<open>axios.create\<close> with defaults of its own.
\<close>

record axios_config =
  baseURL :: "string option"
  headers :: "(string \<times> string) list"
  timeout :: "nat option"

datatype client = GlobalAxios | Instance axios_config

definition auth_headers :: "env \<Rightarrow> (string \<times> string) list" where
  "auth_headers ev =
     (case AUTH_TOKEN ev of
        Some t \<Rightarrow> if t \<noteq> [] then [(''Authorization'', ''Bearer '' @ t)] else []
      | None \<Rightarrow> [])"

text \<open>\<^verbatim>\<open>this.axiosInstance\<close>, made in the constructor.\<close>

definition axiosInstance :: "env \<Rightarrow> client" where
  "axiosInstance ev =
     Instance \<lparr>baseURL = Some (API_URL ev), headers = auth_headers ev, timeout = Some 60000\<rparr>"

text \<open>
  What the program does to the outside: a request on a client (method, url, body, the
  configuration passed with the call), or a \<^verbatim>\<open>setTimeout\<close> wait in milliseconds.
\<close>

datatype effect =
    Request client string string jsval axios_config
  | Sleep nat

text \<open>
  The timeout a request runs under, by the library's merge of configurations: the one passed
  with the call, else the default of the client it is made on, else the library's own
  default \<open>lib\<close>, which is a parameter here.
\<close>

definition effective_timeout :: "nat \<Rightarrow> effect \<Rightarrow> nat option" where
  "effective_timeout lib eff =
     (case eff of
        Sleep ms \<Rightarrow> None
      | Request c m u b cfg \<Rightarrow>
          (case timeout cfg of
             Some t \<Rightarrow> Some t
           | None \<Rightarrow>
               (case c of
                  GlobalAxios \<Rightarrow> Some lib
                | Instance d \<Rightarrow> (case timeout d of Some t \<Rightarrow> Some t | None \<Rightarrow> Some lib))))"

text \<open>The probe of \<^verbatim>\<open>run()\<close>: \<^verbatim>\<open>this.axiosInstance.get('/health')\<close>.\<close>

definition health_probe :: "env \<Rightarrow> effect" where
  "health_probe ev =
     Request (axiosInstance ev) ''get'' ''/health'' JUndefined
       \<lparr>baseURL = None, headers = [], timeout = None\<rparr>"

text \<open>
  The request of one attempt:
  \<^verbatim>\<open>axios.post(`${API_URL}/crawl_direct`, {...DEFAULT_CONFIG, urls}, {headers: requestHeaders})\<close>.
\<close>

definition crawl_post :: "env \<Rightarrow> jsval \<Rightarrow> effect" where
  "crawl_post ev urls =
     Request GlobalAxios ''post'' (API_URL ev @ ''/crawl_direct'')
       (JObj (DEFAULT_CONFIG @ [(''urls'', urls)]))
       \<lparr>baseURL = None, headers = auth_headers ev, timeout = None\<rparr>"

fun is_request :: "effect \<Rightarrow> bool" where
  "is_request (Request c m u b cfg) = True"
| "is_request (Sleep ms) = False"

subsection \<open>The retry loop\<close>

text \<open>
  The network is a parameter: \<open>net n\<close> is how the \<open>n\<close>-th request of the call ends. It is
  answered with a status in the 2xx range (\<open>Resolved\<close>, with the body, which is all the
  handler reads of the response); or it fails the way axios reports (\<open>Failed\<close>: with the
  response when the status is outside 2xx, without one when no answer came, and with a
  message); or something else is thrown inside the call (\<open>Threw\<close>, with its message).
\<close>

datatype outcome =
    Resolved jsval
  | Failed "axios_response option" string
  | Threw string

text \<open>
  \<^verbatim>\<open>await axios.post(...)\<close>: the body of the response, or the error thrown. For a failure
  it reports, axios raises an \<^verbatim>\<open>AxiosError\<close> in which it has put the configuration of the
  request made (\<^verbatim>\<open>error.config\<close>): the method, in lower case, and the URL as given.
\<close>

fun request_config_of :: "effect \<Rightarrow> request_config option" where
  "request_config_of (Request c m u b cfg) = Some \<lparr>req_method = Some m, req_url = Some u\<rparr>"
| "request_config_of (Sleep ms) = None"

definition axios_post :: "env \<Rightarrow> jsval \<Rightarrow> outcome \<Rightarrow> error + jsval" where
  "axios_post ev urls out =
     (case out of
        Resolved d \<Rightarrow> Inr d
      | Failed resp msg \<Rightarrow>
          Inl (AxiosError \<lparr>err_response = resp, err_message = msg,
                            err_config = request_config_of (crawl_post ev urls)\<rparr>)
      | Threw msg \<Rightarrow> Inl (OtherError msg))"

text \<open>
  The \<^verbatim>\<open>for\<close> loop, with its three variables \<^verbatim>\<open>attempt\<close>, \<^verbatim>\<open>response\<close> and
  \<^verbatim>\<open>lastError\<close>, and the effects so far. A response ends the loop (\<^verbatim>\<open>break\<close>); any
  thrown error is stored and, when an attempt is left, followed by a wait.
\<close>

function retry_loop ::
  "env \<Rightarrow> (nat \<Rightarrow> outcome) \<Rightarrow> jsval \<Rightarrow> nat \<Rightarrow> jsval option \<Rightarrow> error option \<Rightarrow> effect list
     \<Rightarrow> jsval option \<times> error option \<times> effect list" where
  "retry_loop ev net urls attempt response lastError log =
     (if attempt \<le> retryCount then
        (case axios_post ev urls (net attempt) of
           Inr d \<Rightarrow> (Some d, lastError, log @ [crawl_post ev urls])
         | Inl e \<Rightarrow>
             retry_loop ev net urls (attempt + 1) response (Some e)
               (log @ [crawl_post ev urls] @
                  (if attempt < retryCount then [Sleep (1000 * 2 ^ (attempt - 1))] else [])))
      else (response, lastError, log))"
  by pat_completeness auto
termination
  by (relation "measure (\<lambda>(ev, net, urls, attempt, response, lastError, log). retryCount + 1 - attempt)")
     auto

declare retry_loop.simps [simp del]

subsection \<open>The handler of a tool call\<close>

record content_block =
  block_type :: string
  block_text :: string

record tool_call_result =
  content :: "content_block list"
  isError :: "bool option"

definition separator :: string where
  "separator = ''\<newline>\<newline>---\<newline>\<newline>''"

text \<open>Lines 201 to 208: which sequence of results a body stands for.\<close>

definition resolve_results :: "jsval \<Rightarrow> jsval list" where
  "resolve_results d =
     (if truthy (js_member d ''results'') \<and> isArray (js_member d ''results'')
      then elements (js_member d ''results'')
      else if isArray d then elements d
      else [d])"

text \<open>
  The body of the \<^verbatim>\<open>try\<close> after the loop. \<^verbatim>\<open>results.map\<close> calls \<^verbatim>\<open>extractMarkdown\<close>
  on the elements in order and \<^verbatim>\<open>join\<close> prints what it returned.
\<close>

definition after_loop :: "jsval option \<Rightarrow> error option \<Rightarrow> error + tool_call_result" where
  "after_loop response lastError =
     (case response of
        None \<Rightarrow> Inl (case lastError of Some e \<Rightarrow> e | None \<Rightarrow> ThrownUndefined)
      | Some d \<Rightarrow>
          if \<not> truthy d
          then Inl (McpError InternalError ''Empty response from crawling service'')
          else
            (case sequence (map extractMarkdown (resolve_results d)) of
               Inl e \<Rightarrow> Inl e
             | Inr markdownResults \<Rightarrow>
                 (case js_join separator markdownResults of
                    Inl e \<Rightarrow> Inl e
                  | Inr t \<Rightarrow>
                      Inr \<lparr>content = [\<lparr>block_type = ''text'', block_text = t\<rparr>],
                           isError = None\<rparr>)))"

text \<open>The \<^verbatim>\<open>catch\<close> block: an axios error becomes a reply, anything else is thrown on.\<close>

definition error_message :: "axios_error \<Rightarrow> jsval" where
  "error_message ae =
     (let d = (case err_response ae of None \<Rightarrow> JUndefined | Some r \<Rightarrow> data r) in
      if truthy (opt_get d ''message'') then opt_get d ''message''
      else if truthy (opt_get d ''detail'') then opt_get d ''detail''
      else JStr (err_message ae))"

definition status_text :: "axios_error \<Rightarrow> string" where
  "status_text ae =
     (case err_response ae of None \<Rightarrow> ''undefined'' | Some r \<Rightarrow> show_nat (unat (status r)))"

definition requestInfo :: "axios_error \<Rightarrow> string" where
  "requestInfo ae =
     (case err_config ae of
        None \<Rightarrow> ''Unknown request''
      | Some c \<Rightarrow>
          (case req_method c of None \<Rightarrow> ''undefined'' | Some m \<Rightarrow> toUpperCase m) @ '' '' @
          (case req_url c of None \<Rightarrow> ''undefined'' | Some u \<Rightarrow> u))"

definition catch_block :: "error \<Rightarrow> error + tool_call_result" where
  "catch_block err =
     (case err of
        AxiosError ae \<Rightarrow>
          (case js_to_string (error_message ae) of
             Inl e \<Rightarrow> Inl e
           | Inr m \<Rightarrow>
               Inr \<lparr>content =
                      [\<lparr>block_type = ''text'',
                        block_text = ''Crawling service error ('' @ status_text ae @ '') for '' @
                                     requestInfo ae @ '': '' @ m\<rparr>],
                    isError = Some True\<rparr>)
      | _ \<Rightarrow> Inl err)"

text \<open>
  The handler registered for \<^verbatim>\<open>CallToolRequestSchema\<close>, on the name and the arguments of
  the call. It gives what the call ends with (\<open>Inl\<close>: the error thrown to the protocol
  layer, \<open>Inr\<close>: the reply returned) and the effects in the order they happened.
\<close>

definition handler ::
  "env \<Rightarrow> (nat \<Rightarrow> outcome) \<Rightarrow> string \<Rightarrow> jsval \<Rightarrow> (error + tool_call_result) \<times> effect list" where
  "handler ev net name args =
     (if name \<noteq> ''crawl_urls'' then (Inl (McpError MethodNotFound (''Unknown tool: '' @ name)), [])
      else if \<not> isValidCrawlRequest args
           then (Inl (McpError InvalidParams ''Invalid crawl request parameters''), [])
      else
        (case retry_loop ev net (js_member args ''urls'') 1 None None [] of
           (response, lastError, log) \<Rightarrow>
             (case after_loop response lastError of
                Inl e \<Rightarrow> (catch_block e, log)
              | Inr r \<Rightarrow> (Inr r, log))))"

subsection \<open>Notions the statements below use\<close>

text \<open>
  The schedule the specification describes, in its own words: \<open>k\<close> attempts, and between
  attempt \<open>n\<close> and attempt \<open>n + 1\<close> a wait of \<open>1000 * 2 ^ (n - 1)\<close> milliseconds.
\<close>

definition spec_backoff :: "nat \<Rightarrow> nat" where
  "spec_backoff n = 1000 * 2 ^ (n - 1)"

fun spec_schedule :: "effect \<Rightarrow> nat \<Rightarrow> effect list" where
  "spec_schedule P 0 = []"
| "spec_schedule P (Suc k) =
     (if k = 0 then [P] else spec_schedule P k @ [Sleep (spec_backoff k), P])"

text \<open>
  Whether the \<open>n\<close>-th request of a call fails, and the number of requests a call then
  makes: up to the first one that is answered, three at most.
\<close>

definition failed :: "(nat \<Rightarrow> outcome) \<Rightarrow> nat \<Rightarrow> bool" where
  "failed net n =
     (case net n of Resolved d \<Rightarrow> False | Failed resp msg \<Rightarrow> True | Threw msg \<Rightarrow> True)"

definition attempts_made :: "(nat \<Rightarrow> outcome) \<Rightarrow> nat" where
  "attempts_made net = (if \<not> failed net 1 then 1 else if \<not> failed net 2 then 2 else 3)"

text \<open>What a call ends with once a request was answered with the body \<open>d\<close>.\<close>

definition reply_to_body :: "jsval \<Rightarrow> error + tool_call_result" where
  "reply_to_body d = (case after_loop (Some d) None of Inl e \<Rightarrow> catch_block e | Inr r \<Rightarrow> Inr r)"

text \<open>
  The shapes the specification speaks of. \<open>own_field v k\<close> is the field \<open>k\<close> of an
  object when it is present, \<open>nested_field\<close> a field of a field. \<open>first_usable\<close> goes
  through fields in order of priority and takes the first that is present and truthy.
\<close>

definition is_string :: "jsval \<Rightarrow> bool" where
  "is_string v = (case v of JStr s \<Rightarrow> True | _ \<Rightarrow> False)"

definition own_field :: "jsval \<Rightarrow> string \<Rightarrow> jsval option" where
  "own_field v k = (case v of JObj kvs \<Rightarrow> map_of kvs k | _ \<Rightarrow> None)"

definition nested_field :: "jsval \<Rightarrow> string \<Rightarrow> string \<Rightarrow> jsval option" where
  "nested_field v k1 k2 = (case own_field v k1 of Some w \<Rightarrow> own_field w k2 | None \<Rightarrow> None)"

fun first_usable :: "jsval option list \<Rightarrow> jsval \<Rightarrow> jsval" where
  "first_usable [] dflt = dflt"
| "first_usable (None # fs) dflt = first_usable fs dflt"
| "first_usable (Some v # fs) dflt = (if truthy v then v else first_usable fs dflt)"

text \<open>
  Valid arguments in the specification's words: an object with a field \<^verbatim>\<open>urls\<close> that is a
  sequence of strings.
\<close>

definition spec_valid_args :: "jsval \<Rightarrow> bool" where
  "spec_valid_args args =
     (case args of
        JObj kvs \<Rightarrow>
          (case map_of kvs ''urls'' of
             Some (JArr us) \<Rightarrow> list_all is_string us
           | _ \<Rightarrow> False)
      | _ \<Rightarrow> False)"

text \<open>
  The result sequence in the specification's words: the \<^verbatim>\<open>results\<close> field when it is a
  sequence, else the body when it is a sequence, else the body alone.
\<close>

definition spec_resolve :: "jsval \<Rightarrow> jsval list" where
  "spec_resolve d =
     (case own_field d ''results'' of
        Some (JArr rs) \<Rightarrow> rs
      | _ \<Rightarrow> (case d of JArr xs \<Rightarrow> xs | _ \<Rightarrow> [d]))"

text \<open>
  The two kinds of reply: a text block, and a text block flagged \<^verbatim>\<open>isError: true\<close>.
\<close>

definition text_reply :: "string \<Rightarrow> tool_call_result" where
  "text_reply t = \<lparr>content = [\<lparr>block_type = ''text'', block_text = t\<rparr>], isError = None\<rparr>"

definition error_reply :: "string \<Rightarrow> tool_call_result" where
  "error_reply t = \<lparr>content = [\<lparr>block_type = ''text'', block_text = t\<rparr>], isError = Some True\<rparr>"

text \<open>The method and the URL of a request, as one line: \<^verbatim>\<open>POST http://host/path\<close>.\<close>

fun request_line :: "effect \<Rightarrow> string" where
  "request_line (Request c m u b cfg) = toUpperCase m @ '' '' @ u"
| "request_line (Sleep ms) = []"

subsection \<open>Inputs for the examples\<close>

text \<open>
  An environment without settings, a call for one URL, a call with a number among the URLs,
  networks that fail or answer in a fixed way (\<open>status_500 body\<close> answers every request
  with status 500 and the given body), and a body with two results.
\<close>

definition example_env :: env where
  "example_env = \<lparr>CRAWL4AI_API_URL = None, CRAWL4AI_AUTH_TOKEN = None\<rparr>"

definition example_args :: jsval where
  "example_args = JObj [(''urls'', JArr [JStr ''https://example.com''])]"

definition bad_args :: jsval where
  "bad_args = JObj [(''urls'', JArr [JStr ''https://example.com'', JNum ''7''])]"

definition always_down :: "nat \<Rightarrow> outcome" where
  "always_down n =
     (if n = 1 then Threw ''first''
      else if n = 2 then Threw ''second''
      else Threw ''third'')"

definition down_then_null :: "nat \<Rightarrow> outcome" where
  "down_then_null n = (if n = 1 then Threw ''first'' else Resolved JNull)"

definition answers :: "jsval \<Rightarrow> nat \<Rightarrow> outcome" where
  "answers d n = Resolved d"

definition two_results :: jsval where
  "two_results =
     JObj [(''results'', JArr [JObj [(''markdown'', JStr ''X'')], JObj [(''markdown'', JStr ''Y'')]])]"

definition status_500 :: "jsval \<Rightarrow> nat \<Rightarrow> outcome" where
  "status_500 body n =
     Failed (Some \<lparr>status = 500, data = body\<rparr>) ''Request failed with status code 500''"

section \<open>The retry loop, unrolled\<close>

lemma axios_post_Resolved: "axios_post ev urls (Resolved d) = Inr d"
  by (simp add: axios_post_def)

lemma failed_throws: "failed net n \<Longrightarrow> \<exists>e. axios_post ev urls (net n) = Inl e"
  by (cases "net n") (simp_all add: failed_def axios_post_def)

lemma throws_failed: "axios_post ev urls (net n) = Inl e \<Longrightarrow> failed net n"
  by (cases "net n") (simp_all add: failed_def axios_post_def)

lemma loop_at_1:
  "retry_loop ev net urls 1 response lastError log =
     (case axios_post ev urls (net 1) of
        Inr d \<Rightarrow> (Some d, lastError, log @ [crawl_post ev urls])
      | Inl e \<Rightarrow>
          retry_loop ev net urls 2 response (Some e) (log @ [crawl_post ev urls, Sleep 1000]))"
  by (subst retry_loop.simps) (simp add: retryCount_def numeral_2_eq_2 split: sum.splits)

lemma loop_at_2:
  "retry_loop ev net urls 2 response lastError log =
     (case axios_post ev urls (net 2) of
        Inr d \<Rightarrow> (Some d, lastError, log @ [crawl_post ev urls])
      | Inl e \<Rightarrow>
          retry_loop ev net urls 3 response (Some e) (log @ [crawl_post ev urls, Sleep 2000]))"
  by (subst retry_loop.simps) (simp add: retryCount_def split: sum.splits)

lemma loop_at_4:
  "retry_loop ev net urls 4 response lastError log = (response, lastError, log)"
  by (subst retry_loop.simps) (simp add: retryCount_def)

lemma loop_at_3:
  "retry_loop ev net urls 3 response lastError log =
     (case axios_post ev urls (net 3) of
        Inr d \<Rightarrow> (Some d, lastError, log @ [crawl_post ev urls])
      | Inl e \<Rightarrow> (response, Some e, log @ [crawl_post ev urls]))"
  by (subst retry_loop.simps) (simp add: retryCount_def loop_at_4 split: sum.splits)

lemma retry_one:
  assumes "axios_post ev urls (net 1) = Inr d"
  shows "retry_loop ev net urls 1 None None []
           = (Some d, None, [crawl_post ev urls])"
  using assms by (simp only: loop_at_1 sum.case append.simps)

lemma retry_two:
  assumes "axios_post ev urls (net 1) = Inl e1" "axios_post ev urls (net 2) = Inr d"
  shows "retry_loop ev net urls 1 None None []
           = (Some d, Some e1, [crawl_post ev urls, Sleep 1000, crawl_post ev urls])"
  using assms by (simp only: loop_at_1 loop_at_2 sum.case append.simps)

lemma retry_three:
  assumes "axios_post ev urls (net 1) = Inl e1" "axios_post ev urls (net 2) = Inl e2"
    "axios_post ev urls (net 3) = Inr d"
  shows "retry_loop ev net urls 1 None None []
           = (Some d, Some e2,
              [crawl_post ev urls, Sleep 1000, crawl_post ev urls, Sleep 2000, crawl_post ev urls])"
  using assms by (simp only: loop_at_1 loop_at_2 loop_at_3 sum.case append.simps)

lemma retry_exhausted:
  assumes "axios_post ev urls (net 1) = Inl e1" "axios_post ev urls (net 2) = Inl e2"
    "axios_post ev urls (net 3) = Inl e3"
  shows "retry_loop ev net urls 1 None None []
           = (None, Some e3,
              [crawl_post ev urls, Sleep 1000, crawl_post ev urls, Sleep 2000, crawl_post ev urls])"
  using assms by (simp only: loop_at_1 loop_at_2 loop_at_3 sum.case append.simps)

lemma spec_schedule_1: "spec_schedule P 1 = [P]"
  by (simp add: numeral_eq_Suc)

lemma spec_schedule_2: "spec_schedule P 2 = [P, Sleep 1000, P]"
  by (simp add: numeral_eq_Suc spec_backoff_def)

lemma spec_schedule_3: "spec_schedule P 3 = [P, Sleep 1000, P, Sleep 2000, P]"
  by (simp add: numeral_eq_Suc spec_backoff_def)

lemma handler_valid:
  assumes "isValidCrawlRequest args"
  shows "handler ev net ''crawl_urls'' args =
           (case retry_loop ev net (js_member args ''urls'') 1 None None [] of
              (response, lastError, log) \<Rightarrow>
                (case after_loop response lastError of
                   Inl e \<Rightarrow> (catch_block e, log)
                 | Inr r \<Rightarrow> (Inr r, log)))"
  using assms by (simp add: handler_def)

lemma handler_log:
  assumes "isValidCrawlRequest args"
  shows "snd (handler ev net ''crawl_urls'' args) =
           spec_schedule (crawl_post ev (js_member args ''urls'')) (attempts_made net)"
proof (cases "axios_post ev (js_member args ''urls'') (net 1)")
  case (Inr d)
  have "retry_loop ev net (js_member args ''urls'') 1 None None []
          = (Some d, None, [crawl_post ev (js_member args ''urls'')])"
    using Inr by (rule retry_one)
  moreover have "\<not> failed net 1"
    using Inr by (cases "net 1") (simp_all add: axios_post_def failed_def)
  ultimately show ?thesis
    unfolding handler_valid [OF assms]
    by (simp add: attempts_made_def spec_schedule_1 split: sum.splits)
next
  case l1: (Inl e1)
  have f1: "failed net 1"
    using l1 by (rule throws_failed)
  show ?thesis
  proof (cases "axios_post ev (js_member args ''urls'') (net 2)")
    case (Inr d)
    have "retry_loop ev net (js_member args ''urls'') 1 None None []
            = (Some d, Some e1, [crawl_post ev (js_member args ''urls''), Sleep 1000,
                 crawl_post ev (js_member args ''urls'')])"
      using l1 Inr by (rule retry_two)
    moreover have "\<not> failed net 2"
      using Inr by (cases "net 2") (simp_all add: axios_post_def failed_def)
    ultimately show ?thesis
      unfolding handler_valid [OF assms] using f1
      by (simp add: attempts_made_def spec_schedule_2 split: sum.splits)
  next
    case l2: (Inl e2)
    have f2: "failed net 2"
      using l2 by (rule throws_failed)
    have "\<exists>r l. retry_loop ev net (js_member args ''urls'') 1 None None []
            = (r, l, [crawl_post ev (js_member args ''urls''), Sleep 1000,
                 crawl_post ev (js_member args ''urls''), Sleep 2000,
                 crawl_post ev (js_member args ''urls'')])"
      using retry_three [OF l1 l2] retry_exhausted [OF l1 l2]
      by (cases "axios_post ev (js_member args ''urls'') (net 3)") auto
    then show ?thesis
      unfolding handler_valid [OF assms] using f1 f2
      by (auto simp: attempts_made_def spec_schedule_3 split: sum.splits)
  qed
qed

lemma handler_exhausted:
  assumes "isValidCrawlRequest args"
    and "axios_post ev (js_member args ''urls'') (net 1) = Inl e1"
    and "axios_post ev (js_member args ''urls'') (net 2) = Inl e2"
    and "axios_post ev (js_member args ''urls'') (net 3) = Inl e3"
  shows "fst (handler ev net ''crawl_urls'' args) = catch_block e3"
  unfolding handler_valid [OF assms(1)] retry_exhausted [OF assms(2-4)]
  by (simp add: after_loop_def)

lemma count_requests_schedule:
  "k \<le> 3 \<Longrightarrow> length (filter is_request (spec_schedule (crawl_post ev urls) k)) = k"
  by (induction k) (auto simp: crawl_post_def)

lemma after_loop_Some: "after_loop (Some d) l = after_loop (Some d) None"
  by (simp add: after_loop_def)

lemma handler_resolved:
  assumes "isValidCrawlRequest args" and "net (attempts_made net) = Resolved d"
  shows "fst (handler ev net ''crawl_urls'' args) = reply_to_body d"
proof -
  have "\<exists>l log. retry_loop ev net (js_member args ''urls'') 1 None None [] = (Some d, l, log)"
  proof (cases "failed net 1")
    case False
    then have "net 1 = Resolved d"
      using assms(2) by (simp add: attempts_made_def)
    then have "axios_post ev (js_member args ''urls'') (net 1) = Inr d"
      by (simp add: axios_post_Resolved)
    then show ?thesis
      using retry_one by blast
  next
    case f1: True
    then obtain e1 where l1: "axios_post ev (js_member args ''urls'') (net 1) = Inl e1"
      using failed_throws by blast
    show ?thesis
    proof (cases "failed net 2")
      case False
      then have "net 2 = Resolved d"
        using assms(2) f1 by (simp add: attempts_made_def)
      then have "axios_post ev (js_member args ''urls'') (net 2) = Inr d"
        by (simp add: axios_post_Resolved)
      with l1 show ?thesis
        using retry_two by blast
    next
      case f2: True
      then obtain e2 where l2: "axios_post ev (js_member args ''urls'') (net 2) = Inl e2"
        using failed_throws by blast
      have "net 3 = Resolved d"
        using assms(2) f1 f2 by (simp add: attempts_made_def)
      then have "axios_post ev (js_member args ''urls'') (net 3) = Inr d"
        by (simp add: axios_post_Resolved)
      with l1 l2 show ?thesis
        using retry_three by blast
    qed
  qed
  then obtain l log where
    "retry_loop ev net (js_member args ''urls'') 1 None None [] = (Some d, l, log)"
    by blast
  then show ?thesis
    unfolding handler_valid [OF assms(1)]
    by (simp add: reply_to_body_def after_loop_Some [of d l] split: sum.splits)
qed

lemma attempts_made_bounds: "1 \<le> attempts_made net \<and> attempts_made net \<le> 3"
  by (simp add: attempts_made_def)

lemma attempts_made_cong:
  "(\<forall>n. failed net' n = failed net n) \<Longrightarrow> attempts_made net' = attempts_made net"
  by (simp add: attempts_made_def)

lemma example_args_valid: "isValidCrawlRequest example_args"
  by (simp add: example_args_def isValidCrawlRequest_def)

lemma answers_first: "attempts_made (answers d) = 1"
  by (simp add: attempts_made_def failed_def answers_def)

lemma answers_resolved: "answers d (attempts_made (answers d)) = Resolved d"
  by (simp add: answers_def)

section \<open>Retry and backoff\<close>

text \<open>
  Claim C1. A call that passes validation makes at most three requests: exactly as many as
  \<open>attempts_made\<close> says, in the order of the specification's schedule, so the wait asked
  for before attempt \<open>n + 1\<close> is \<open>1000 * 2 ^ (n - 1)\<close> milliseconds (1000, then 2000).
  The schedule does not look at the errors: two networks that fail at the same attempts give
  the same effects, whatever the failures are. When all three attempts fail, the error that
  reaches the \<^verbatim>\<open>catch\<close> block is the one thrown by the third.
\<close>

theorem retry_policy:
  assumes "isValidCrawlRequest args"
  shows "snd (handler ev net ''crawl_urls'' args)
           = spec_schedule (crawl_post ev (js_member args ''urls'')) (attempts_made net)
       \<and> length (filter is_request (snd (handler ev net ''crawl_urls'' args))) = attempts_made net
       \<and> attempts_made net \<le> 3
       \<and> (\<forall>net'. (\<forall>n. failed net' n = failed net n) \<longrightarrow>
              snd (handler ev net' ''crawl_urls'' args) = snd (handler ev net ''crawl_urls'' args))
       \<and> (\<forall>e1 e2 e3. axios_post ev (js_member args ''urls'') (net 1) = Inl e1
                      \<and> axios_post ev (js_member args ''urls'') (net 2) = Inl e2
                      \<and> axios_post ev (js_member args ''urls'') (net 3) = Inl e3 \<longrightarrow>
              fst (handler ev net ''crawl_urls'' args) = catch_block e3)"
proof -
  have log: "snd (handler ev n ''crawl_urls'' args)
               = spec_schedule (crawl_post ev (js_member args ''urls'')) (attempts_made n)" for n
    using assms by (rule handler_log)
  have bound: "attempts_made net \<le> 3"
    using attempts_made_bounds by blast
  have count: "length (filter is_request (snd (handler ev net ''crawl_urls'' args))) = attempts_made net"
    unfolding log using bound by (rule count_requests_schedule)
  have same: "snd (handler ev net' ''crawl_urls'' args) = snd (handler ev net ''crawl_urls'' args)"
    if "\<forall>n. failed net' n = failed net n" for net'
    unfolding log using attempts_made_cong [OF that] by simp
  have last: "fst (handler ev net ''crawl_urls'' args) = catch_block e3"
    if "axios_post ev (js_member args ''urls'') (net 1) = Inl e1
        \<and> axios_post ev (js_member args ''urls'') (net 2) = Inl e2
        \<and> axios_post ev (js_member args ''urls'') (net 3) = Inl e3" for e1 e2 e3
    using assms that handler_exhausted by blast
  show ?thesis
    using log count bound same last by blast
qed

theorem retry_policy_witness:
  "isValidCrawlRequest example_args
   \<and> snd (handler example_env always_down ''crawl_urls'' example_args)
       = [crawl_post example_env (JArr [JStr ''https://example.com'']), Sleep 1000,
          crawl_post example_env (JArr [JStr ''https://example.com'']), Sleep 2000,
          crawl_post example_env (JArr [JStr ''https://example.com''])]
   \<and> fst (handler example_env always_down ''crawl_urls'' example_args) = Inl (OtherError ''third'')"
proof -
  have v: "isValidCrawlRequest example_args"
    by (simp add: example_args_def isValidCrawlRequest_def)
  have n: "axios_post example_env (js_member example_args ''urls'') (always_down 1)
             = Inl (OtherError ''first'')
           \<and> axios_post example_env (js_member example_args ''urls'') (always_down 2)
             = Inl (OtherError ''second'')
           \<and> axios_post example_env (js_member example_args ''urls'') (always_down 3)
             = Inl (OtherError ''third'')"
    by (simp add: always_down_def axios_post_def)
  have m: "attempts_made always_down = 3"
    by (simp add: attempts_made_def failed_def always_down_def)
  have u: "js_member example_args ''urls'' = JArr [JStr ''https://example.com'']"
    by (simp add: example_args_def)
  from retry_policy [OF v, of example_env always_down] n
  have "snd (handler example_env always_down ''crawl_urls'' example_args)
          = spec_schedule (crawl_post example_env (js_member example_args ''urls'')) 3
        \<and> fst (handler example_env always_down ''crawl_urls'' example_args)
          = catch_block (OtherError ''third'')"
    unfolding m by blast
  then show ?thesis
    using v by (simp add: u spec_schedule_3 catch_block_def)
qed

section \<open>Validation\<close>

lemma typeof_string: "(typeof u = ''string'') = is_string u"
  by (cases u) (simp_all add: is_string_def)

lemma valid_iff_spec: "isValidCrawlRequest args = spec_valid_args args"
proof (cases args)
  case (JObj kvs)
  show ?thesis
  proof (cases "map_of kvs ''urls''")
    case None
    then show ?thesis using JObj by (simp add: isValidCrawlRequest_def spec_valid_args_def)
  next
    case (Some u)
    then show ?thesis using JObj
      by (cases u) (simp_all add: isValidCrawlRequest_def spec_valid_args_def typeof_string)
  qed
qed (simp_all add: isValidCrawlRequest_def spec_valid_args_def)

lemma spec_valid_args_shape:
  assumes "spec_valid_args args"
  shows "\<exists>kvs us. args = JObj kvs \<and> map_of kvs ''urls'' = Some (JArr us) \<and> list_all is_string us"
proof (cases args)
  case (JObj kvs)
  show ?thesis
  proof (cases "map_of kvs ''urls''")
    case None
    then show ?thesis using assms JObj by (simp add: spec_valid_args_def)
  next
    case (Some u)
    then show ?thesis using assms JObj by (cases u) (simp_all add: spec_valid_args_def)
  qed
qed (use assms in \<open>simp_all add: spec_valid_args_def\<close>)

text \<open>
  Claim C6. A call to another tool than \<^verbatim>\<open>crawl_urls\<close> ends with \<open>MethodNotFound\<close>; a
  call to \<^verbatim>\<open>crawl_urls\<close> whose arguments are not an object with a field \<^verbatim>\<open>urls\<close> that
  is a sequence of strings ends with \<open>InvalidParams\<close>; in both cases, and whenever the
  arguments have not that shape, no request is made. The name is checked first. An empty
  \<^verbatim>\<open>urls\<close> is valid and is sent on.
\<close>

theorem validation_faults:
  "(name \<noteq> ''crawl_urls'' \<longrightarrow>
      handler ev net name args = (Inl (McpError MethodNotFound (''Unknown tool: '' @ name)), []))
   \<and> (\<not> spec_valid_args args \<longrightarrow>
      handler ev net ''crawl_urls'' args
        = (Inl (McpError InvalidParams ''Invalid crawl request parameters''), []))
   \<and> (\<not> spec_valid_args args \<longrightarrow> snd (handler ev net name args) = [])
   \<and> spec_valid_args (JObj [(''urls'', JArr [])])
   \<and> snd (handler ev net ''crawl_urls'' (JObj [(''urls'', JArr [])]))
       = spec_schedule (crawl_post ev (JArr [])) (attempts_made net)"
proof -
  have e: "isValidCrawlRequest (JObj [(''urls'', JArr [])])"
    by (simp add: isValidCrawlRequest_def)
  have "snd (handler ev net ''crawl_urls'' (JObj [(''urls'', JArr [])]))
          = spec_schedule (crawl_post ev (js_member (JObj [(''urls'', JArr [])]) ''urls''))
              (attempts_made net)"
    using e by (rule handler_log)
  then show ?thesis
    using e by (simp add: handler_def valid_iff_spec)
qed

theorem validation_faults_witness:
  "''list_tools'' \<noteq> ''crawl_urls''
   \<and> handler example_env always_down ''list_tools'' example_args
       = (Inl (McpError MethodNotFound ''Unknown tool: list_tools''), [])
   \<and> \<not> spec_valid_args bad_args
   \<and> handler example_env always_down ''crawl_urls'' bad_args
       = (Inl (McpError InvalidParams ''Invalid crawl request parameters''), [])"
proof -
  have b: "\<not> spec_valid_args bad_args"
    by (simp add: bad_args_def spec_valid_args_def is_string_def)
  show ?thesis
    using validation_faults [of "''list_tools''" example_env always_down example_args]
      validation_faults [of "''crawl_urls''" example_env always_down bad_args] b
    by simp
qed

text \<open>
  Claim C9, as amended. Arguments that pass validation hold a sequence \<^verbatim>\<open>urls\<close> of
  strings, and the sequence may be empty. Nothing is checked about the strings themselves:
  the empty string passes, which is why the claim as first stated (every element a non-empty
  string) does not hold.
\<close>

theorem accepted_urls_are_strings:
  "(isValidCrawlRequest args \<longrightarrow>
      (\<exists>us. js_member args ''urls'' = JArr us \<and> (\<forall>u \<in> set us. \<exists>s. u = JStr s)))
   \<and> isValidCrawlRequest (JObj [(''urls'', JArr [])])"
proof -
  have "\<exists>us. js_member args ''urls'' = JArr us \<and> (\<forall>u \<in> set us. \<exists>s. u = JStr s)"
    if "spec_valid_args args"
  proof -
    from spec_valid_args_shape [OF that]
    obtain kvs us where a: "args = JObj kvs" "map_of kvs ''urls'' = Some (JArr us)"
      and l: "list_all is_string us"
      by blast
    have "\<exists>s. u = JStr s" if "u \<in> set us" for u
      using l that by (cases u) (auto simp: list_all_iff is_string_def)
    then show ?thesis
      using a by auto
  qed
  then show ?thesis
    by (simp add: valid_iff_spec spec_valid_args_def)
qed

theorem accepted_urls_are_strings_witness:
  "isValidCrawlRequest example_args
   \<and> (\<exists>us. js_member example_args ''urls'' = JArr us \<and> (\<forall>u \<in> set us. \<exists>s. u = JStr s))"
  using accepted_urls_are_strings [of example_args] example_args_valid by blast

theorem accepted_empty_url_counterexample:
  "isValidCrawlRequest (JObj [(''urls'', JArr [JStr []])])
   \<and> js_member (JObj [(''urls'', JArr [JStr []])]) ''urls'' = JArr [JStr []]"
  by (simp add: isValidCrawlRequest_def)

section \<open>The normaliser\<close>

lemma js_member_own_field:
  "js_member v k = (case own_field v k of Some w \<Rightarrow> w | None \<Rightarrow> JUndefined)"
  by (cases v) (simp_all add: own_field_def)

text \<open>
  Claim C3, as amended. On an item that is not \<^verbatim>\<open>null\<close> or \<^verbatim>\<open>undefined\<close> the
  normaliser returns, verbatim, the nested field
  \<^verbatim>\<open>markdown_v2.markdown_with_citations\<close> when it is present and truthy, else the field
  \<^verbatim>\<open>markdown\<close> when it is present and truthy, else the item when it is a string, else
  the sentinel. Nothing else of the item is looked at. A field that is present but falsy
  (the empty string, \<open>0\<close>, \<^verbatim>\<open>false\<close>, \<^verbatim>\<open>null\<close>) is passed over, which is where the
  claim as first stated fails.
\<close>

theorem normalizer_order:
  assumes "\<not> nullish item"
  shows "extractMarkdown item =
           Inr (first_usable
                  [nested_field item ''markdown_v2'' ''markdown_with_citations'',
                   own_field item ''markdown'']
                  (if is_string item then item else JStr sentinel))"
proof (cases "own_field item ''markdown_v2''")
  case None
  then show ?thesis using assms
    by (cases "own_field item ''markdown''")
       (simp_all add: extractMarkdown_def js_get_def js_member_own_field nested_field_def
          typeof_string)
next
  case (Some w)
  show ?thesis
  proof (cases "own_field w ''markdown_with_citations''")
    case None
    then show ?thesis using assms Some
      by (cases "own_field item ''markdown''")
         (simp_all add: extractMarkdown_def js_get_def js_member_own_field nested_field_def
            typeof_string)
  next
    case inner: (Some c)
    have "truthy w" using inner by (cases w) (simp_all add: own_field_def)
    then show ?thesis using assms Some inner
      by (cases "own_field item ''markdown''")
         (simp_all add: extractMarkdown_def js_get_def js_member_own_field nested_field_def
            typeof_string)
  qed
qed

theorem normalizer_order_witness:
  "extractMarkdown (JObj [(''markdown_v2'', JObj [(''markdown_with_citations'', JStr ''A'')])])
     = Inr (JStr ''A'')
   \<and> extractMarkdown (JObj [(''markdown'', JStr ''B'')]) = Inr (JStr ''B'')
   \<and> extractMarkdown (JStr ''C'') = Inr (JStr ''C'')
   \<and> extractMarkdown (JObj []) = Inr (JStr sentinel)
   \<and> extractMarkdown (JObj [(''data'', JObj [(''markdown'', JStr ''D'')])]) = Inr (JStr sentinel)"
  using
    normalizer_order
      [of "JObj [(''markdown_v2'', JObj [(''markdown_with_citations'', JStr ''A'')])]"]
    normalizer_order [of "JObj [(''markdown'', JStr ''B'')]"]
    normalizer_order [of "JStr ''C''"]
    normalizer_order [of "JObj []"]
    normalizer_order [of "JObj [(''data'', JObj [(''markdown'', JStr ''D'')])]"]
  by (simp add: nested_field_def own_field_def is_string_def)

theorem present_but_empty_markdown_counterexample:
  "own_field (JObj [(''markdown'', JStr [])]) ''markdown'' = Some (JStr [])
   \<and> extractMarkdown (JObj [(''markdown'', JStr [])])
       = Inr (JStr ''Error: No markdown content available for this URL'')"
  by (simp add: own_field_def extractMarkdown_def js_get_def sentinel_def)

text \<open>
  Claim C4 does not hold of the code. The first thing the normaliser does is read
  \<^verbatim>\<open>result.markdown_v2\<close>, and on \<^verbatim>\<open>null\<close> (or \<^verbatim>\<open>undefined\<close>) that read throws a
  \<^verbatim>\<open>TypeError\<close> before the final \<^verbatim>\<open>else\<close> with the sentinel is reached. A body with a
  \<^verbatim>\<open>null\<close> among its results therefore ends the call with that error.
\<close>

theorem normalizer_throws_on_null:
  "extractMarkdown JNull = Inl (TypeError ''Cannot read properties of null or undefined'')
   \<and> extractMarkdown JUndefined = Inl (TypeError ''Cannot read properties of null or undefined'')
   \<and> reply_to_body (JObj [(''results'', JArr [JObj [(''markdown'', JStr ''X'')], JNull])])
       = Inl (TypeError ''Cannot read properties of null or undefined'')"
  by (simp add: extractMarkdown_def js_get_def reply_to_body_def after_loop_def
        resolve_results_def catch_block_def)

section \<open>Replies to an answered request\<close>

lemma resolve_results_spec: "resolve_results d = spec_resolve d"
proof (cases "own_field d ''results''")
  case None
  then show ?thesis
    by (cases d) (simp_all add: resolve_results_def spec_resolve_def js_member_own_field)
next
  case (Some r)
  then have "\<exists>kvs. d = JObj kvs"
    by (cases d) (simp_all add: own_field_def)
  then show ?thesis using Some
    by (cases r) (auto simp: resolve_results_def spec_resolve_def js_member_own_field)
qed

lemma resolve_empty_truthy: "resolve_results d = [] \<Longrightarrow> truthy d"
  by (cases d) (simp_all add: resolve_results_def split: if_splits)

lemma nullish_not_truthy: "nullish d \<Longrightarrow> \<not> truthy d"
  by (cases d) simp_all

lemma reply_nullish:
  "\<not> truthy d \<Longrightarrow>
   reply_to_body d = Inl (McpError InternalError ''Empty response from crawling service'')"
  by (simp add: reply_to_body_def after_loop_def catch_block_def)

lemma sequence_strings: "sequence (map (\<lambda>s. Inr (JStr s)) ts) = Inr (map JStr ts)"
  by (induction ts) simp_all

lemma sequence_print_strings:
  "sequence (map (\<lambda>x. if nullish x then Inr [] else js_to_string x) (map JStr ts)) = Inr ts"
  by (induction ts) simp_all

lemma js_join_strings: "js_join sep (map JStr ts) = Inr (join_strings sep ts)"
  unfolding js_join_def sequence_print_strings by simp

lemma reply_strings:
  assumes "truthy d"
    and "map extractMarkdown (resolve_results d) = map (\<lambda>s. Inr (JStr s)) ts"
  shows "reply_to_body d = Inr (text_reply (join_strings separator ts))"
  using assms
  by (simp add: reply_to_body_def after_loop_def sequence_strings js_join_strings text_reply_def)

text \<open>
  Claim C7. When the request that ends the loop is answered with a body that is \<^verbatim>\<open>null\<close>
  or absent, the call throws the \<open>InternalError\<close> fault: it is thrown, not returned as a
  reply, and the effects are those of the schedule up to the answered request, with no
  further attempt.
\<close>

theorem empty_body_fault:
  assumes "isValidCrawlRequest args"
    and "net (attempts_made net) = Resolved d"
    and "nullish d"
  shows "handler ev net ''crawl_urls'' args =
           (Inl (McpError InternalError ''Empty response from crawling service''),
            spec_schedule (crawl_post ev (js_member args ''urls'')) (attempts_made net))"
proof -
  have "fst (handler ev net ''crawl_urls'' args) = reply_to_body d"
    using assms(1,2) by (rule handler_resolved)
  then have "fst (handler ev net ''crawl_urls'' args)
          = Inl (McpError InternalError ''Empty response from crawling service'')"
    using reply_nullish [OF nullish_not_truthy [OF assms(3)]] by simp
  moreover have "snd (handler ev net ''crawl_urls'' args)
          = spec_schedule (crawl_post ev (js_member args ''urls'')) (attempts_made net)"
    using assms(1) by (rule handler_log)
  ultimately show ?thesis
    by (simp add: prod_eq_iff)
qed

theorem empty_body_fault_witness:
  "isValidCrawlRequest example_args
   \<and> nullish JNull
   \<and> handler example_env down_then_null ''crawl_urls'' example_args
       = (Inl (McpError InternalError ''Empty response from crawling service''),
          [crawl_post example_env (JArr [JStr ''https://example.com'']), Sleep 1000,
           crawl_post example_env (JArr [JStr ''https://example.com''])])"
proof -
  have m: "attempts_made down_then_null = 2"
    by (simp add: attempts_made_def failed_def down_then_null_def)
  have r: "down_then_null (attempts_made down_then_null) = Resolved JNull"
    unfolding m by (simp add: down_then_null_def)
  have u: "js_member example_args ''urls'' = JArr [JStr ''https://example.com'']"
    by (simp add: example_args_def)
  show ?thesis
    using empty_body_fault [of example_args down_then_null JNull example_env]
      example_args_valid r
    unfolding m u spec_schedule_2 by simp
qed

text \<open>
  Claim C10. When the answered body stands for an empty sequence of results, the call
  returns a reply without the error flag whose one text block is the empty string.
\<close>

theorem empty_results_reply:
  assumes "isValidCrawlRequest args"
    and "net (attempts_made net) = Resolved d"
    and "resolve_results d = []"
  shows "fst (handler ev net ''crawl_urls'' args) = Inr (text_reply [])"
proof -
  have "truthy d"
    using assms(3) by (rule resolve_empty_truthy)
  moreover have "map extractMarkdown (resolve_results d) = map (\<lambda>s. Inr (JStr s)) []"
    using assms(3) by simp
  ultimately have "reply_to_body d = Inr (text_reply (join_strings separator []))"
    by (rule reply_strings)
  moreover have "fst (handler ev net ''crawl_urls'' args) = reply_to_body d"
    using assms(1,2) by (rule handler_resolved)
  ultimately show ?thesis
    by simp
qed

theorem empty_results_reply_witness:
  "isValidCrawlRequest example_args
   \<and> resolve_results (JObj [(''results'', JArr [])]) = []
   \<and> fst (handler example_env (answers (JObj [(''results'', JArr [])])) ''crawl_urls'' example_args)
       = Inr \<lparr>content = [\<lparr>block_type = ''text'', block_text = []\<rparr>], isError = None\<rparr>"
proof -
  have r: "resolve_results (JObj [(''results'', JArr [])]) = []"
    by (simp add: resolve_results_def)
  show ?thesis
    using empty_results_reply
            [of example_args "answers (JObj [(''results'', JArr [])])"
                "JObj [(''results'', JArr [])]" example_env]
      example_args_valid answers_resolved r
    by (simp add: text_reply_def)
qed

text \<open>
  Claim C2, as amended. For a body that is truthy (the test the code applies: not
  \<^verbatim>\<open>null\<close>, absent, \<^verbatim>\<open>false\<close>, \<open>0\<close> or the empty string), the sequence of results is
  the one the specification describes; and when the normaliser returns a string for each of
  its elements, the reply is one text block without the error flag, holding those strings in
  order, joined by the separator. The claim as first stated fails on the body
  \<^verbatim>\<open>false\<close>, which is not \<^verbatim>\<open>null\<close> or absent and is rejected as empty, and on a body
  with a \<^verbatim>\<open>null\<close> result, where the call throws.
\<close>

theorem result_shape_and_join:
  assumes "isValidCrawlRequest args"
    and "net (attempts_made net) = Resolved d"
    and "truthy d"
    and "map extractMarkdown (resolve_results d) = map (\<lambda>s. Inr (JStr s)) ts"
  shows "resolve_results d = spec_resolve d
       \<and> fst (handler ev net ''crawl_urls'' args) = Inr (text_reply (join_strings separator ts))"
proof -
  have "fst (handler ev net ''crawl_urls'' args) = reply_to_body d"
    using assms(1,2) by (rule handler_resolved)
  then show ?thesis
    using reply_strings [OF assms(3,4)] resolve_results_spec by simp
qed

theorem result_shape_and_join_witness:
  "isValidCrawlRequest example_args
   \<and> truthy two_results
   \<and> resolve_results two_results = [JObj [(''markdown'', JStr ''X'')], JObj [(''markdown'', JStr ''Y'')]]
   \<and> fst (handler example_env (answers two_results) ''crawl_urls'' example_args)
       = Inr \<lparr>content = [\<lparr>block_type = ''text'',
                               block_text = ''X\<newline>\<newline>---\<newline>\<newline>Y''\<rparr>],
              isError = None\<rparr>"
proof -
  have t: "truthy two_results"
    by (simp add: two_results_def)
  have r: "resolve_results two_results
             = [JObj [(''markdown'', JStr ''X'')], JObj [(''markdown'', JStr ''Y'')]]"
    by (simp add: resolve_results_def two_results_def)
  have e: "map extractMarkdown (resolve_results two_results)
             = map (\<lambda>s. Inr (JStr s)) [''X'', ''Y'']"
    unfolding r by (simp add: extractMarkdown_def js_get_def)
  show ?thesis
    using result_shape_and_join
            [of example_args "answers two_results" two_results "[''X'', ''Y'']" example_env]
      example_args_valid answers_resolved t e r
    by (simp add: text_reply_def separator_def)
qed

theorem result_shape_and_join_counterexample:
  "fst (handler example_env (answers (JBool False)) ''crawl_urls'' example_args)
     = Inl (McpError InternalError ''Empty response from crawling service'')
   \<and> fst (handler example_env (answers (JObj [(''results'', JArr [JNull])])) ''crawl_urls''
            example_args)
     = Inl (TypeError ''Cannot read properties of null or undefined'')"
proof -
  have "fst (handler example_env (answers d) ''crawl_urls'' example_args) = reply_to_body d" for d
    using example_args_valid answers_resolved by (rule handler_resolved)
  then show ?thesis
    by (simp add: reply_to_body_def after_loop_def catch_block_def resolve_results_def
          extractMarkdown_def js_get_def)
qed

section \<open>Replies to a failed call\<close>

lemma error_message_response:
  assumes "err_response ae = Some r"
  shows "error_message ae =
           first_usable [own_field (data r) ''message'', own_field (data r) ''detail'']
             (JStr (err_message ae))"
proof -
  have m: "opt_get (data r) k = (case own_field (data r) k of Some w \<Rightarrow> w | None \<Rightarrow> JUndefined)" for k
    by (cases "data r") (simp_all add: opt_get_def own_field_def)
  show ?thesis using assms
    by (cases "own_field (data r) ''message''"; cases "own_field (data r) ''detail''")
       (simp_all add: error_message_def m)
qed

lemma error_message_no_response:
  "err_response ae = None \<Longrightarrow> error_message ae = JStr (err_message ae)"
  by (simp add: error_message_def opt_get_def)

lemma show_nat_500: "show_nat 500 = ''500''"
  by code_simp

lemma toUpperCase_post: "toUpperCase ''post'' = ''POST''"
  by code_simp

lemma request_line_crawl_post:
  "request_line (crawl_post ev urls) = ''POST '' @ API_URL ev @ ''/crawl_direct''"
  by (simp add: crawl_post_def toUpperCase_post)

lemma requestInfo_crawl_post:
  "requestInfo \<lparr>err_response = resp, err_message = msg,
                 err_config = request_config_of (crawl_post ev urls)\<rparr>
     = request_line (crawl_post ev urls)"
  by (simp add: requestInfo_def crawl_post_def)

lemma first_request_logged:
  assumes "isValidCrawlRequest args"
  shows "crawl_post ev (js_member args ''urls'') \<in> set (snd (handler ev net ''crawl_urls'' args))"
proof -
  have "crawl_post ev (js_member args ''urls'')
          \<in> set (spec_schedule (crawl_post ev (js_member args ''urls'')) (attempts_made net))"
    by (simp add: attempts_made_def spec_schedule_1 spec_schedule_2 spec_schedule_3)
  then show ?thesis
    using handler_log [OF assms] by simp
qed

text \<open>
  Claim C5, as amended. After three failed attempts, when the third failure is an HTTP
  error (an axios error that carries a response), the call returns a reply flagged
  \<^verbatim>\<open>isError: true\<close> with the text
  \<^verbatim>\<open>Crawling service error (STATUS) for POST URL: MESSAGE\<close>: the status code in decimal,
  the method and the URL of the request that was made, and as message the first of the
  body's \<^verbatim>\<open>message\<close> and \<^verbatim>\<open>detail\<close> fields that is present and truthy, else the error's
  own text, provided that value can be printed. An axios error without a response is
  reported in the same way, with \<^verbatim>\<open>undefined\<close> for the status. Any other error is thrown on
  unchanged. The claim as first stated fails on a body with an empty \<^verbatim>\<open>message\<close> and a
  \<^verbatim>\<open>detail\<close>, where the detail is used, and on a message that cannot be printed, where
  the call throws.
\<close>

theorem transport_error_reply:
  assumes "isValidCrawlRequest args" and "failed net 1" and "failed net 2"
  shows "(\<forall>r msg m.
            net 3 = Failed (Some r) msg \<and>
            js_to_string (first_usable [own_field (data r) ''message'', own_field (data r) ''detail'']
                            (JStr msg)) = Inr m \<longrightarrow>
            fst (handler ev net ''crawl_urls'' args)
              = Inr (error_reply (''Crawling service error ('' @ show_nat (unat (status r)) @
                                   '') for '' @ request_line (crawl_post ev (js_member args ''urls''))
                                   @ '': '' @ m)))
       \<and> (\<forall>msg.
            net 3 = Failed None msg \<longrightarrow>
            fst (handler ev net ''crawl_urls'' args)
              = Inr (error_reply (''Crawling service error (undefined) for '' @
                                   request_line (crawl_post ev (js_member args ''urls''))
                                   @ '': '' @ msg)))
       \<and> (\<forall>msg. net 3 = Threw msg \<longrightarrow>
            fst (handler ev net ''crawl_urls'' args) = Inl (OtherError msg))
       \<and> request_line (crawl_post ev (js_member args ''urls''))
           = ''POST '' @ API_URL ev @ ''/crawl_direct''
       \<and> crawl_post ev (js_member args ''urls'') \<in> set (snd (handler ev net ''crawl_urls'' args))"
proof -
  obtain e1 e2 where l: "axios_post ev (js_member args ''urls'') (net 1) = Inl e1"
    "axios_post ev (js_member args ''urls'') (net 2) = Inl e2"
    using assms(2,3) failed_throws by blast
  have h: "fst (handler ev net ''crawl_urls'' args) = catch_block e3"
    if "axios_post ev (js_member args ''urls'') (net 3) = Inl e3" for e3
    using assms(1) l that by (rule handler_exhausted)
  have http: "fst (handler ev net ''crawl_urls'' args)
                = Inr (error_reply (''Crawling service error ('' @ show_nat (unat (status r)) @
                                     '') for '' @ request_line (crawl_post ev (js_member args ''urls''))
                                     @ '': '' @ m))"
    if "net 3 = Failed (Some r) msg"
      and "js_to_string (first_usable [own_field (data r) ''message'', own_field (data r) ''detail'']
                           (JStr msg)) = Inr m" for r msg m
  proof -
    let ?ae = "\<lparr>err_response = Some r, err_message = msg,
                err_config = request_config_of (crawl_post ev (js_member args ''urls''))\<rparr>"
    have "axios_post ev (js_member args ''urls'') (net 3) = Inl (AxiosError ?ae)"
      using that(1) by (simp add: axios_post_def)
    then have "fst (handler ev net ''crawl_urls'' args) = catch_block (AxiosError ?ae)"
      by (rule h)
    moreover have "error_message ?ae
        = first_usable [own_field (data r) ''message'', own_field (data r) ''detail''] (JStr msg)"
      using error_message_response [of ?ae r] by simp
    ultimately show ?thesis
      using that(2)
      by (simp add: catch_block_def requestInfo_crawl_post status_text_def error_reply_def)
  qed
  have noresp: "fst (handler ev net ''crawl_urls'' args)
                  = Inr (error_reply (''Crawling service error (undefined) for '' @
                                       request_line (crawl_post ev (js_member args ''urls''))
                                       @ '': '' @ msg))"
    if "net 3 = Failed None msg" for msg
  proof -
    let ?ae = "\<lparr>err_response = None, err_message = msg,
                err_config = request_config_of (crawl_post ev (js_member args ''urls''))\<rparr>"
    have "axios_post ev (js_member args ''urls'') (net 3) = Inl (AxiosError ?ae)"
      using that by (simp add: axios_post_def)
    then have "fst (handler ev net ''crawl_urls'' args) = catch_block (AxiosError ?ae)"
      by (rule h)
    moreover have "error_message ?ae = JStr msg"
      using error_message_no_response [of ?ae] by simp
    ultimately show ?thesis
      by (simp add: catch_block_def requestInfo_crawl_post status_text_def error_reply_def)
  qed
  have other: "fst (handler ev net ''crawl_urls'' args) = Inl (OtherError msg)"
    if "net 3 = Threw msg" for msg
  proof -
    have "axios_post ev (js_member args ''urls'') (net 3) = Inl (OtherError msg)"
      using that by (simp add: axios_post_def)
    then have "fst (handler ev net ''crawl_urls'' args) = catch_block (OtherError msg)"
      by (rule h)
    then show ?thesis
      by (simp add: catch_block_def)
  qed
  show ?thesis
    using http noresp other request_line_crawl_post first_request_logged [OF assms(1)] by blast
qed

theorem transport_error_reply_witness:
  "isValidCrawlRequest example_args
   \<and> failed (status_500 (JObj [(''detail'', JStr ''boom'')])) 1
   \<and> failed (status_500 (JObj [(''detail'', JStr ''boom'')])) 2
   \<and> fst (handler example_env (status_500 (JObj [(''detail'', JStr ''boom'')])) ''crawl_urls''
            example_args)
       = Inr \<lparr>content =
                [\<lparr>block_type = ''text'',
                  block_text =
                    ''Crawling service error (500) for POST http://127.0.0.1:11235/crawl_direct: boom''\<rparr>],
              isError = Some True\<rparr>
   \<and> fst (handler example_env always_down ''crawl_urls'' example_args) = Inl (OtherError ''third'')"
proof -
  let ?net = "status_500 (JObj [(''detail'', JStr ''boom'')])"
  have f: "failed ?net 1" "failed ?net 2" "failed always_down 1" "failed always_down 2"
    by (simp_all add: failed_def status_500_def always_down_def)
  have n: "?net 3 = Failed (Some \<lparr>status = 500, data = JObj [(''detail'', JStr ''boom'')]\<rparr>)
                      ''Request failed with status code 500''"
    by (simp add: status_500_def)
  have m: "js_to_string
             (first_usable
                [own_field (data \<lparr>status = 500, data = JObj [(''detail'', JStr ''boom'')]\<rparr>) ''message'',
                 own_field (data \<lparr>status = 500, data = JObj [(''detail'', JStr ''boom'')]\<rparr>) ''detail'']
                (JStr ''Request failed with status code 500'')) = Inr ''boom''"
    by (simp add: own_field_def)
  have d: "always_down 3 = Threw ''third''"
    by (simp add: always_down_def)
  from transport_error_reply [OF example_args_valid f(1,2), of example_env] n m
  have "fst (handler example_env ?net ''crawl_urls'' example_args)
          = Inr (error_reply (''Crawling service error ('' @ show_nat (unat (500 :: 10 word)) @
                                '') for '' @ ''POST '' @ API_URL example_env @ ''/crawl_direct''
                                @ '': '' @ ''boom''))"
    by auto
  moreover from transport_error_reply [OF example_args_valid f(3,4), of example_env] d
  have "fst (handler example_env always_down ''crawl_urls'' example_args) = Inl (OtherError ''third'')"
    by blast
  ultimately show ?thesis
    using example_args_valid f(1,2)
    by (simp add: show_nat_500 error_reply_def API_URL_def example_env_def)
qed

theorem transport_error_reply_counterexample:
  "own_field (JObj [(''message'', JStr []), (''detail'', JStr ''boom'')]) ''message'' = Some (JStr [])
   \<and> fst (handler example_env
             (status_500 (JObj [(''message'', JStr []), (''detail'', JStr ''boom'')]))
             ''crawl_urls'' example_args)
       = Inr \<lparr>content =
                [\<lparr>block_type = ''text'',
                  block_text =
                    ''Crawling service error (500) for POST http://127.0.0.1:11235/crawl_direct: boom''\<rparr>],
              isError = Some True\<rparr>
   \<and> fst (handler example_env
             (status_500 (JObj [(''message'', JObj [(''toString'', JNum ''1'')])]))
             ''crawl_urls'' example_args)
       = Inl (TypeError ''Cannot convert object to primitive value'')"
proof -
  have h: "fst (handler example_env (status_500 body) ''crawl_urls'' example_args)
             = catch_block (AxiosError
                 \<lparr>err_response = Some \<lparr>status = 500, data = body\<rparr>,
                  err_message = ''Request failed with status code 500'',
                  err_config = request_config_of
                                 (crawl_post example_env (js_member example_args ''urls''))\<rparr>)" for body
    by (rule handler_exhausted [OF example_args_valid]) (simp_all add: axios_post_def status_500_def)
  show ?thesis
    unfolding h
    by (simp add: own_field_def catch_block_def error_message_def opt_get_def status_text_def
          show_nat_500 requestInfo_crawl_post request_line_crawl_post API_URL_def example_env_def)
qed

section \<open>The timeout of the crawl request\<close>

text \<open>
  Claim C8 does not hold of the code. The 60000 ms timeout is a default of
  \<^verbatim>\<open>this.axiosInstance\<close>, which only the health probe uses. The crawl request is made on
  the module-level \<^verbatim>\<open>axios\<close> and passes \<^verbatim>\<open>headers\<close> alone, so it runs under the
  library's default \<open>lib\<close>, whatever that is.
\<close>

theorem crawl_post_without_timeout:
  "snd (handler example_env (answers (JStr ''ok'')) ''crawl_urls'' example_args)
     = [crawl_post example_env (JArr [JStr ''https://example.com''])]
   \<and> effective_timeout lib (crawl_post example_env (JArr [JStr ''https://example.com''])) = Some lib
   \<and> effective_timeout lib (health_probe example_env) = Some 60000"
proof -
  have "snd (handler example_env (answers (JStr ''ok'')) ''crawl_urls'' example_args)
          = spec_schedule (crawl_post example_env (js_member example_args ''urls''))
              (attempts_made (answers (JStr ''ok'')))"
    using example_args_valid by (rule handler_log)
  then show ?thesis
    by (simp add: answers_first spec_schedule_1 example_args_def effective_timeout_def
          crawl_post_def health_probe_def axiosInstance_def)
qed

end
